theory Spec2Isabelle
  imports Complex_Main
begin

section \<open>Radio TX Studio backend: the playback handlers of server.js\<close>

text \<open>
  The server is a single-threaded Node.js program. Its handlers run on one event loop and
  share the module-level variables \<^verbatim>\<open>STATE\<close>, \<^verbatim>\<open>zmqSock\<close> and \<^verbatim>\<open>playTimer\<close>. A handler runs
  without interruption up to its next \<^verbatim>\<open>await\<close>; there it suspends, and the rest of its body
  is run by the event loop once the awaited promise settles. The model below is the
  corresponding transition system: one event per piece of code that the event loop runs
  in one go (the arrival of a request, the settling of an awaited promise, the firing of
  an interval timer), and a function \<open>step\<close> that executes that piece on the state.

  The libraries are collaborators behind their call interface: a ZeroMQ publisher is an
  object that counts its \<^verbatim>\<open>close()\<close> calls and whose \<^verbatim>\<open>connect\<close> and \<^verbatim>\<open>send\<close> promises
  settle when the environment says so; the WAV decoder turns a readable, well-formed file
  into the samples of its first channel and rejects any other; the file system is a table
  from \<^verbatim>\<open>fileId\<close> to the file found at \<^verbatim>\<open>path.join(UPLOAD_DIR, fileId)\<close>.

  The upload and listing routes and the greeting of a new WebSocket client are left out:
  they read or extend the upload directory, announce a new file or greet one client, and
  do not touch the playback state.
\<close>

subsection \<open>JSON values\<close>

datatype json =
  JNull | JBool bool | JNum nat | JStr string | JArr "json list" | JObj "(string \<times> json) list"

text \<open>JavaScript truthiness of \<^verbatim>\<open>req.body.fileId\<close>; \<open>None\<close> is \<^verbatim>\<open>undefined\<close>.\<close>

fun falsy :: "json option \<Rightarrow> bool" where
  "falsy None = True"
| "falsy (Some JNull) = True"
| "falsy (Some (JBool b)) = (\<not> b)"
| "falsy (Some (JNum n)) = (n = 0)"
| "falsy (Some (JStr s)) = (s = [])"
| "falsy (Some (JArr vs)) = False"
| "falsy (Some (JObj kvs)) = False"

subsection \<open>Runtime state\<close>

text \<open>\<^verbatim>\<open>const STATE = { playing: false, currentFile: null, bytesSent: 0 }\<close>\<close>

record runtime_state =
  playing :: bool
  currentFile :: "string option"
  bytesSent :: nat

text \<open>A \<^verbatim>\<open>zmq.Publisher\<close> object.\<close>

record publisher =
  connected :: bool
  closes :: nat

text \<open>
  The closure of one \<^verbatim>\<open>setInterval\<close> callback: the captured \<^verbatim>\<open>samples\<close>, the captured
  mutable \<^verbatim>\<open>index\<close>, and whether the interval is still scheduled (\<^verbatim>\<open>clearInterval\<close> has not
  been called on it).
\<close>

record 'a loop =
  samples :: "'a list"
  index :: nat
  active :: bool

text \<open>
  A frame handed to \<^verbatim>\<open>zmqSock.send\<close>: the publisher it went to, the interval that sent it,
  the value of \<^verbatim>\<open>index\<close> it was cut at, and the samples of the slice.
\<close>

record 'a frame =
  sock :: nat
  timer :: nat
  cursor :: nat
  payload :: "'a list"

text \<open>What \<^verbatim>\<open>fs\<close> finds at \<^verbatim>\<open>path.join(UPLOAD_DIR, fileId)\<close>.\<close>

datatype 'a upload =
    Wav "'a list"  \<comment> \<open>decodes; the list is \<^verbatim>\<open>channelData[0]\<close>\<close>
  | Corrupt        \<comment> \<open>readable, but \<^verbatim>\<open>wavDecoder.decode\<close> rejects\<close>
  | Unreadable     \<comment> \<open>exists, but \<^verbatim>\<open>readFileSync\<close> throws (a directory)\<close>

text \<open>A suspended \<^verbatim>\<open>/api/play\<close> handler.\<close>

datatype 'a play =
    AwaitDecode string "'a upload"     \<comment> \<open>at \<^verbatim>\<open>await wavDecoder.decode(buffer)\<close>: fileId, buffer\<close>
  | AwaitConnect string "'a list" nat \<comment> \<open>at \<^verbatim>\<open>await zmqSock.connect(...)\<close>: fileId, samples, publisher\<close>
  | PlayDone

text \<open>A suspended interval callback, at \<^verbatim>\<open>await zmqSock.send(buf)\<close>: its interval and \<^verbatim>\<open>buf.length\<close>.\<close>

datatype send = AwaitSend nat nat | SendDone

record 'a world =
  STATE :: runtime_state
  zmqSock :: "nat option"
  playTimer :: "nat option"
  sockets :: "publisher list"
  timers :: "'a loop list"
  plays :: "'a play list"
  sends :: "send list"
  disk :: "string \<Rightarrow> 'a upload option"
  emitted :: "'a frame list"
  broadcasts :: "json list"
  responses :: "(nat \<times> json) list"
  unhandled :: nat

definition init :: "(string \<Rightarrow> 'a upload option) \<Rightarrow> 'a world" where
  "init d = \<lparr> STATE = \<lparr> playing = False, currentFile = None, bytesSent = 0 \<rparr>,
             zmqSock = None, playTimer = None, sockets = [], timers = [], plays = [],
             sends = [], disk = d, emitted = [], broadcasts = [], responses = [],
             unhandled = 0 \<rparr>"

subsection \<open>Helpers of the handlers\<close>

definition broadcast :: "json \<Rightarrow> 'a world \<Rightarrow> 'a world" where
  "broadcast msg w = w\<lparr> broadcasts := broadcasts w @ [msg] \<rparr>"

definition respond :: "nat \<Rightarrow> json \<Rightarrow> 'a world \<Rightarrow> 'a world" where
  "respond code body w = w\<lparr> responses := responses w @ [(code, body)] \<rparr>"

definition status_playing :: "string \<Rightarrow> json" where
  "status_playing f = JObj [(''type'', JStr ''status''), (''playing'', JBool True), (''currentFile'', JStr f)]"

definition status_stopped :: json where
  "status_stopped = JObj [(''type'', JStr ''status''), (''playing'', JBool False)]"

definition ok_body :: json where
  "ok_body = JObj [(''ok'', JBool True)]"

definition error_body :: "string \<Rightarrow> json" where
  "error_body msg = JObj [(''error'', JStr msg)]"

definition chunkSize :: nat where
  "chunkSize = 1024"

text \<open>\<^verbatim>\<open>Float32Array.prototype.subarray(begin, end)\<close> for \<open>0 \<le> begin\<close>: both ends are clamped.\<close>

definition subarray :: "'a list \<Rightarrow> nat \<Rightarrow> nat \<Rightarrow> 'a list" where
  "subarray xs b e = drop b (take e xs)"

text \<open>\<^verbatim>\<open>slice.byteLength\<close>: four bytes per 32-bit float.\<close>

definition byteLength :: "'a list \<Rightarrow> nat" where
  "byteLength slice = 4 * length slice"

text \<open>
  \<^verbatim>\<open>
  function cleanupStream(resetBytes = false) {
    if (playTimer) { clearInterval(playTimer); playTimer = null; }
    if (zmqSock) { try { zmqSock.close(); } catch {} zmqSock = null; }
    if (resetBytes) STATE.bytesSent = 0;
  }
  \<close>
\<close>

definition clear_timer :: "'a world \<Rightarrow> 'a world" where
  "clear_timer w =
     (case playTimer w of
        None \<Rightarrow> w
      | Some t \<Rightarrow> w\<lparr> timers := (timers w)[t := (timers w ! t)\<lparr> active := False \<rparr>],
                     playTimer := None \<rparr>)"

definition close_sock :: "'a world \<Rightarrow> 'a world" where
  "close_sock w =
     (case zmqSock w of
        None \<Rightarrow> w
      | Some s \<Rightarrow> w\<lparr> sockets := (sockets w)[s := (sockets w ! s)\<lparr> closes := Suc (closes (sockets w ! s)) \<rparr>],
                     zmqSock := None \<rparr>)"

definition cleanupStream :: "bool \<Rightarrow> 'a world \<Rightarrow> 'a world" where
  "cleanupStream resetBytes w =
     (let w2 = close_sock (clear_timer w)
      in if resetBytes then w2\<lparr> STATE := (STATE w2)\<lparr> bytesSent := 0 \<rparr> \<rparr> else w2)"

subsection \<open>POST /api/play\<close>

text \<open>
  Lines 83 to 94, up to the first \<^verbatim>\<open>await\<close>. A \<^verbatim>\<open>fileId\<close> that is truthy but not a string
  makes \<^verbatim>\<open>path.join\<close> throw, and an existing path that cannot be read makes
  \<^verbatim>\<open>readFileSync\<close> throw; both land in the \<^verbatim>\<open>catch\<close>, the second one after
  \<^verbatim>\<open>cleanupStream(true)\<close> has run.
\<close>

definition play_request :: "json option \<Rightarrow> 'a world \<Rightarrow> 'a world" where
  "play_request fileId w =
     (if falsy fileId then respond 400 (error_body ''fileId required'') w
      else case fileId of
        Some (JStr f) \<Rightarrow>
          (case disk w f of
             None \<Rightarrow> respond 404 (error_body ''file not found'') w
           | Some buffer \<Rightarrow>
               (let w1 = cleanupStream True w
                in case buffer of
                     Unreadable \<Rightarrow> respond 500 (error_body ''failed to play'') w1
                   | _ \<Rightarrow> w1\<lparr> plays := plays w1 @ [AwaitDecode f buffer] \<rparr>))
      | _ \<Rightarrow> respond 500 (error_body ''failed to play'') w)"

text \<open>
  Lines 95 to 100: the decoder's promise has settled. On success the handler stores a new
  publisher in \<^verbatim>\<open>zmqSock\<close> and suspends at \<^verbatim>\<open>connect\<close>; on rejection it answers 500.
\<close>

definition play_decoded :: "nat \<Rightarrow> 'a world \<Rightarrow> 'a world" where
  "play_decoded r w =
     (case plays w ! r of
        AwaitDecode f (Wav xs) \<Rightarrow>
          w\<lparr> sockets := sockets w @ [\<lparr> connected = False, closes = 0 \<rparr>],
             zmqSock := Some (length (sockets w)),
             plays := (plays w)[r := AwaitConnect f xs (length (sockets w))] \<rparr>
      | AwaitDecode f _ \<Rightarrow>
          respond 500 (error_body ''failed to play'') (w\<lparr> plays := (plays w)[r := PlayDone] \<rparr>)
      | _ \<Rightarrow> w)"

text \<open>Lines 101 to 125: \<^verbatim>\<open>connect\<close> has resolved.\<close>

definition play_connected :: "nat \<Rightarrow> 'a world \<Rightarrow> 'a world" where
  "play_connected r w =
     (case plays w ! r of
        AwaitConnect f xs s \<Rightarrow>
          (let w1 = w\<lparr> sockets := (sockets w)[s := (sockets w ! s)\<lparr> connected := True \<rparr>],
                       plays := (plays w)[r := PlayDone],
                       STATE := \<lparr> playing = True, currentFile = Some f, bytesSent = 0 \<rparr> \<rparr>;
               w2 = broadcast (status_playing f) w1;
               w3 = w2\<lparr> playTimer := Some (length (timers w2)),
                        timers := timers w2 @ [\<lparr> samples = xs, index = 0, active = True \<rparr>] \<rparr>
           in respond 200 ok_body w3)
      | _ \<Rightarrow> w)"

text \<open>\<^verbatim>\<open>connect\<close> has rejected: the \<^verbatim>\<open>catch\<close> answers 500.\<close>

definition play_connect_failed :: "nat \<Rightarrow> 'a world \<Rightarrow> 'a world" where
  "play_connect_failed r w =
     (case plays w ! r of
        AwaitConnect f xs s \<Rightarrow>
          respond 500 (error_body ''failed to play'') (w\<lparr> plays := (plays w)[r := PlayDone] \<rparr>)
      | _ \<Rightarrow> w)"

subsection \<open>The interval callback\<close>

text \<open>
  Lines 111 to 120, up to \<^verbatim>\<open>await zmqSock.send(buf)\<close>. With \<^verbatim>\<open>zmqSock\<close> null the call
  throws inside the async callback, which rejects a promise nobody handles.
\<close>

definition interval_tick :: "nat \<Rightarrow> 'a world \<Rightarrow> 'a world" where
  "interval_tick t w =
     (let lp = timers w ! t
      in if \<not> playing (STATE w) \<or> length (samples lp) \<le> index lp
         then broadcast status_stopped (cleanupStream False w)
         else case zmqSock w of
                None \<Rightarrow> w\<lparr> unhandled := Suc (unhandled w) \<rparr>
              | Some s \<Rightarrow>
                  (let slice = subarray (samples lp) (index lp) (index lp + chunkSize)
                   in w\<lparr> emitted := emitted w @
                            [\<lparr> sock = s, timer = t, cursor = index lp, payload = slice \<rparr>],
                         sends := sends w @ [AwaitSend t (byteLength slice)] \<rparr>))"

text \<open>Lines 121 and 122: the send has resolved.\<close>

definition send_resolved :: "nat \<Rightarrow> 'a world \<Rightarrow> 'a world" where
  "send_resolved k w =
     (case sends w ! k of
        AwaitSend t n \<Rightarrow>
          w\<lparr> STATE := (STATE w)\<lparr> bytesSent := bytesSent (STATE w) + n \<rparr>,
             timers := (timers w)[t := (timers w ! t)\<lparr> index := index (timers w ! t) + chunkSize \<rparr>],
             sends := (sends w)[k := SendDone] \<rparr>
      | SendDone \<Rightarrow> w)"

text \<open>The send has rejected: the callback's promise rejects and nothing else runs.\<close>

definition send_rejected :: "nat \<Rightarrow> 'a world \<Rightarrow> 'a world" where
  "send_rejected k w =
     (case sends w ! k of
        AwaitSend t n \<Rightarrow> w\<lparr> sends := (sends w)[k := SendDone], unhandled := Suc (unhandled w) \<rparr>
      | SendDone \<Rightarrow> w)"

subsection \<open>POST /api/pause and GET /api/stream-status\<close>

definition pause_request :: "'a world \<Rightarrow> 'a world" where
  "pause_request w =
     (let w1 = cleanupStream False w;
          w2 = w1\<lparr> STATE := (STATE w1)\<lparr> playing := False \<rparr> \<rparr>
      in respond 200 ok_body (broadcast status_stopped w2))"

definition status_body :: "runtime_state \<Rightarrow> json" where
  "status_body st =
     JObj [(''playing'', JBool (playing st)),
           (''currentFileId'', (case currentFile st of None \<Rightarrow> JNull | Some f \<Rightarrow> JStr f)),
           (''bytesSent'', JNum (bytesSent st))]"

definition status_request :: "'a world \<Rightarrow> 'a world" where
  "status_request w = respond 200 (status_body (STATE w)) w"

subsection \<open>The event loop\<close>

datatype event =
    PostPlay "json option"  \<comment> \<open>a request to /api/play arrives; the argument is \<^verbatim>\<open>req.body.fileId\<close>\<close>
  | DecodeSettled nat        \<comment> \<open>the decode promise of a suspended play handler settles\<close>
  | ConnectResolved nat
  | ConnectRejected nat
  | PostPause
  | GetStatus
  | TimerTick nat            \<comment> \<open>an interval fires\<close>
  | SendResolved nat         \<comment> \<open>the send promise of a suspended callback resolves\<close>
  | SendRejected nat

text \<open>
  An event that cannot happen in a state (a continuation that is not pending, the tick of
  an interval that was cleared or never created) leaves the state as it is.
\<close>

fun step :: "'a world \<Rightarrow> event \<Rightarrow> 'a world" where
  "step w (PostPlay fileId) = play_request fileId w"
| "step w (DecodeSettled r) = (if r < length (plays w) then play_decoded r w else w)"
| "step w (ConnectResolved r) = (if r < length (plays w) then play_connected r w else w)"
| "step w (ConnectRejected r) = (if r < length (plays w) then play_connect_failed r w else w)"
| "step w PostPause = pause_request w"
| "step w GetStatus = status_request w"
| "step w (TimerTick t) =
     (if t < length (timers w) \<and> active (timers w ! t) then interval_tick t w else w)"
| "step w (SendResolved k) = (if k < length (sends w) then send_resolved k w else w)"
| "step w (SendRejected k) = (if k < length (sends w) then send_rejected k w else w)"

definition run :: "'a world \<Rightarrow> event list \<Rightarrow> 'a world" where
  "run w evs = foldl step w evs"

subsection \<open>Runs and observations used in the statements\<close>

text \<open>
  A start whose handler is not interleaved with anything else: the request arrives, the
  decode settles, the connect resolves.
\<close>

definition start :: "string \<Rightarrow> 'a world \<Rightarrow> 'a world" where
  "start f w =
     run w [PostPlay (Some (JStr f)), DecodeSettled (length (plays w)),
            ConnectResolved (length (plays w))]"

text \<open>
  A paced emission loop: \<open>k\<close> firings of interval \<open>t\<close>, the send of each firing resolving
  before the next firing. A firing that takes the finishing branch starts no send, and the
  \<open>SendResolved\<close> event after it has nothing to resume.
\<close>

definition tick_then_send :: "nat \<Rightarrow> 'a world \<Rightarrow> 'a world" where
  "tick_then_send t w = step (step w (TimerTick t)) (SendResolved (length (sends w)))"

fun paced :: "nat \<Rightarrow> nat \<Rightarrow> 'a world \<Rightarrow> 'a world" where
  "paced t 0 w = w"
| "paced t (Suc k) w = paced t k (tick_then_send t w)"

text \<open>
  The frames of a sample sequence, cut every \<open>chunkSize\<close> samples, and how many there are.
\<close>

definition frames_needed :: "'a list \<Rightarrow> nat" where
  "frames_needed xs = (length xs + chunkSize - 1) div chunkSize"

definition chunks :: "'a list \<Rightarrow> 'a list list" where
  "chunks xs =
     map (\<lambda>j. subarray xs (chunkSize * j) (chunkSize * j + chunkSize))
         [0 ..< frames_needed xs]"

text \<open>The \<open>j\<close>-th frame of a paced loop, as interval \<open>t\<close> hands it to publisher \<open>s\<close>.\<close>

definition frame_at :: "nat \<Rightarrow> nat \<Rightarrow> 'a list \<Rightarrow> nat \<Rightarrow> 'a frame" where
  "frame_at s t xs j =
     \<lparr> sock = s, timer = t, cursor = chunkSize * j,
       payload = subarray xs (chunkSize * j) (chunkSize * j + chunkSize) \<rparr>"

text \<open>
  Interval \<open>t\<close> is the current one, scheduled, bound to the samples \<open>xs\<close> with its
  \<^verbatim>\<open>index\<close> at \<open>i\<close>, and \<open>s\<close> is the current publisher.
\<close>

definition streaming :: "nat \<Rightarrow> nat \<Rightarrow> 'a list \<Rightarrow> nat \<Rightarrow> 'a world \<Rightarrow> bool" where
  "streaming t s xs i w \<longleftrightarrow>
     t < length (timers w) \<and> timers w ! t = \<lparr> samples = xs, index = i, active = True \<rparr> \<and>
     playing (STATE w) \<and> zmqSock w = Some s \<and> playTimer w = Some t"

text \<open>The intervals that are scheduled, and the frames one interval has sent.\<close>

definition active_timers :: "'a world \<Rightarrow> nat list" where
  "active_timers w = filter (\<lambda>t. active (timers w ! t)) [0 ..< length (timers w)]"

definition frames_of :: "nat \<Rightarrow> 'a world \<Rightarrow> 'a frame list" where
  "frames_of t w = filter (\<lambda>fr. timer fr = t) (emitted w)"

text \<open>No frame was cut beyond the \<^verbatim>\<open>index\<close> its interval has reached.\<close>

definition cursors_bounded :: "'a world \<Rightarrow> bool" where
  "cursors_bounded w \<longleftrightarrow>
     (\<forall>fr \<in> set (emitted w).
        timer fr < length (timers w) \<and> cursor fr \<le> index (timers w ! timer fr))"





text \<open>
  At most the current interval is scheduled; the current publisher has not been closed and
  every other one has been closed once; no play handler is suspended.
\<close>

definition single_session :: "'a world \<Rightarrow> bool" where
  "single_session w \<longleftrightarrow>
     (\<forall>t < length (timers w). active (timers w ! t) \<longrightarrow> playTimer w = Some t) \<and>
     (\<forall>s < length (sockets w). closes (sockets w ! s) = (if zmqSock w = Some s then 0 else 1)) \<and>
     (\<forall>s. zmqSock w = Some s \<longrightarrow> s < length (sockets w)) \<and>
     (\<forall>p \<in> set (plays w). p = PlayDone)"



definition keys :: "json \<Rightarrow> string list" where
  "keys v = (case v of JObj kvs \<Rightarrow> map fst kvs | _ \<Rightarrow> [])"

text \<open>
  An upload directory for the concrete runs: a recording of 2500 samples, one of a single
  sample, and a file that is not a WAV file.
\<close>

definition studio_disk :: "string \<Rightarrow> nat upload option" where
  "studio_disk =
     [''a.wav'' \<mapsto> Wav (replicate 2500 0), ''b.wav'' \<mapsto> Wav [1], ''bad.wav'' \<mapsto> Corrupt]"

section \<open>Properties\<close>

subsection \<open>What the helpers change\<close>

lemma clear_timer_simps:
  "STATE (clear_timer w) = STATE w"
  "zmqSock (clear_timer w) = zmqSock w"
  "playTimer (clear_timer w) = None"
  "sockets (clear_timer w) = sockets w"
  "timers (clear_timer w) =
     (case playTimer w of None \<Rightarrow> timers w
      | Some t \<Rightarrow> (timers w)[t := (timers w ! t)\<lparr> active := False \<rparr>])"
  "plays (clear_timer w) = plays w"
  "sends (clear_timer w) = sends w"
  "disk (clear_timer w) = disk w"
  "emitted (clear_timer w) = emitted w"
  "broadcasts (clear_timer w) = broadcasts w"
  "responses (clear_timer w) = responses w"
  "unhandled (clear_timer w) = unhandled w"
  by (simp_all add: clear_timer_def split: option.split)

lemma close_sock_simps:
  "STATE (close_sock w) = STATE w"
  "zmqSock (close_sock w) = None"
  "playTimer (close_sock w) = playTimer w"
  "sockets (close_sock w) =
     (case zmqSock w of None \<Rightarrow> sockets w
      | Some s \<Rightarrow> (sockets w)[s := (sockets w ! s)\<lparr> closes := Suc (closes (sockets w ! s)) \<rparr>])"
  "timers (close_sock w) = timers w"
  "plays (close_sock w) = plays w"
  "sends (close_sock w) = sends w"
  "disk (close_sock w) = disk w"
  "emitted (close_sock w) = emitted w"
  "broadcasts (close_sock w) = broadcasts w"
  "responses (close_sock w) = responses w"
  "unhandled (close_sock w) = unhandled w"
  by (simp_all add: close_sock_def split: option.split)

lemma cleanupStream_simps:
  "STATE (cleanupStream b w) = (if b then (STATE w)\<lparr> bytesSent := 0 \<rparr> else STATE w)"
  "zmqSock (cleanupStream b w) = None"
  "playTimer (cleanupStream b w) = None"
  "plays (cleanupStream b w) = plays w"
  "sends (cleanupStream b w) = sends w"
  "disk (cleanupStream b w) = disk w"
  "emitted (cleanupStream b w) = emitted w"
  "broadcasts (cleanupStream b w) = broadcasts w"
  "responses (cleanupStream b w) = responses w"
  "unhandled (cleanupStream b w) = unhandled w"
  by (simp_all add: cleanupStream_def Let_def clear_timer_simps close_sock_simps)

lemma sockets_cleanupStream:
  "sockets (cleanupStream b w) =
     (case zmqSock w of None \<Rightarrow> sockets w
      | Some s \<Rightarrow> (sockets w)[s := (sockets w ! s)\<lparr> closes := Suc (closes (sockets w ! s)) \<rparr>])"
  by (simp add: cleanupStream_def Let_def clear_timer_simps close_sock_simps split: option.split)

lemma timers_cleanupStream:
  "timers (cleanupStream b w) =
     (case playTimer w of None \<Rightarrow> timers w
      | Some t \<Rightarrow> (timers w)[t := (timers w ! t)\<lparr> active := False \<rparr>])"
  by (simp add: cleanupStream_def Let_def clear_timer_simps close_sock_simps split: option.split)

lemma length_sockets_cleanupStream [simp]:
  "length (sockets (cleanupStream b w)) = length (sockets w)"
  by (simp add: sockets_cleanupStream split: option.split)

lemma length_timers_cleanupStream [simp]:
  "length (timers (cleanupStream b w)) = length (timers w)"
  by (simp add: timers_cleanupStream split: option.split)

lemma cleanupStream_idle:
  "playTimer w = None \<Longrightarrow> zmqSock w = None \<Longrightarrow> cleanupStream False w = w"
  by (simp add: cleanupStream_def clear_timer_def close_sock_def)

lemmas handler_defs =
  play_request_def play_decoded_def play_connected_def play_connect_failed_def
  interval_tick_def send_resolved_def send_rejected_def pause_request_def
  status_request_def broadcast_def respond_def Let_def

subsection \<open>A start, and the paced loop after it\<close>

lemma start_fields:
  assumes "disk w f = Some (Wav xs)" "f \<noteq> []"
  shows "STATE (start f w) = \<lparr> playing = True, currentFile = Some f, bytesSent = 0 \<rparr>"
    and "zmqSock (start f w) = Some (length (sockets w))"
    and "playTimer (start f w) = Some (length (timers w))"
    and "timers (start f w) = timers (cleanupStream True w) @ [\<lparr> samples = xs, index = 0, active = True \<rparr>]"
    and "emitted (start f w) = emitted w"
    and "sends (start f w) = sends w"
    and "broadcasts (start f w) = broadcasts w @ [status_playing f]"
    and "responses (start f w) = responses w @ [(200, ok_body)]"
  using assms
  by (simp_all add: start_def run_def handler_defs cleanupStream_simps)

lemma start_streaming:
  assumes "disk w f = Some (Wav xs)" "f \<noteq> []"
  shows "streaming (length (timers w)) (length (sockets w)) xs 0 (start f w)"
  using assms by (simp add: streaming_def start_fields nth_append)

lemma length_subarray: "length (subarray xs b e) = min e (length xs) - b"
  by (simp add: subarray_def min.commute)

lemma tick_then_send_emit:
  assumes "streaming t s xs i w" "i < length xs"
  shows "streaming t s xs (i + chunkSize) (tick_then_send t w)"
    and "emitted (tick_then_send t w) =
           emitted w @ [\<lparr> sock = s, timer = t, cursor = i, payload = subarray xs i (i + chunkSize) \<rparr>]"
    and "bytesSent (STATE (tick_then_send t w)) =
           bytesSent (STATE w) + 4 * (min (i + chunkSize) (length xs) - i)"
  using assms
  by (simp_all add: tick_then_send_def streaming_def interval_tick_def send_resolved_def Let_def
        nth_append byteLength_def length_subarray)

lemma tick_then_send_idle:
  "\<not> (t < length (timers w) \<and> active (timers w ! t)) \<Longrightarrow> tick_then_send t w = w"
  by (auto simp: tick_then_send_def)

lemma paced_idle:
  "\<not> (t < length (timers w) \<and> active (timers w ! t)) \<Longrightarrow> paced t k w = w"
  by (induction k) (simp_all add: tick_then_send_idle)

lemma tick_then_send_finish:
  assumes "streaming t s xs i w" "length xs \<le> i"
  shows "tick_then_send t w = broadcast status_stopped (cleanupStream False w)"
  using assms
  by (simp add: tick_then_send_def streaming_def interval_tick_def broadcast_def cleanupStream_simps)

lemma paced_finish:
  assumes "streaming t s xs i w" "length xs \<le> i"
  shows "paced t (Suc k) w = broadcast status_stopped (cleanupStream False w)"
proof -
  let ?w' = "broadcast status_stopped (cleanupStream False w)"
  have "\<not> active (timers ?w' ! t)"
    using assms by (simp add: streaming_def broadcast_def timers_cleanupStream)
  then have "paced t k ?w' = ?w'"
    by (simp add: paced_idle)
  with tick_then_send_finish [OF assms] show ?thesis by simp
qed

lemma paced_add: "paced t (a + b) w = paced t b (paced t a w)"
  by (induction a arbitrary: w) simp_all

lemma paced_progress:
  assumes "streaming t s xs (chunkSize * j) w" "chunkSize * (j + k) < length xs + chunkSize"
  shows "streaming t s xs (chunkSize * (j + k)) (paced t k w) \<and>
         emitted (paced t k w) = emitted w @ map (frame_at s t xs) [j ..< j + k] \<and>
         bytesSent (STATE (paced t k w)) + 4 * min (chunkSize * j) (length xs) =
           bytesSent (STATE w) + 4 * min (chunkSize * (j + k)) (length xs)"
  using assms
proof (induction k arbitrary: j w)
  case 0
  then show ?case by simp
next
  case (Suc k)
  let ?w' = "tick_then_send t w"
  let ?L = "length xs"
  have lt: "chunkSize * j < ?L"
    using Suc.prems(2) by (simp add: chunkSize_def)
  have s': "streaming t s xs (chunkSize * Suc j) ?w'"
    using tick_then_send_emit(1) [OF Suc.prems(1) lt] by (simp add: add.commute)
  have e': "emitted ?w' = emitted w @ [frame_at s t xs j]"
    using tick_then_send_emit(2) [OF Suc.prems(1) lt] by (simp add: frame_at_def)
  have b': "bytesSent (STATE ?w') =
              bytesSent (STATE w) + 4 * (min (chunkSize * Suc j) ?L - chunkSize * j)"
    using tick_then_send_emit(3) [OF Suc.prems(1) lt] by (simp add: add.commute)
  have "chunkSize * (Suc j + k) < ?L + chunkSize"
    using Suc.prems(2) by simp
  note ih = Suc.IH [OF s' this]
  have idx: "Suc j + k = j + Suc k"
    by simp
  have "[j ..< j + Suc k] = j # [Suc j ..< Suc j + k]"
    by (simp add: upt_conv_Cons)
  then have frames: "emitted (paced t (Suc k) w) = emitted w @ map (frame_at s t xs) [j ..< j + Suc k]"
    using ih e' by simp
  define a where "a = chunkSize * j"
  define m1 where "m1 = min (chunkSize * Suc j) ?L"
  define M where "M = min (chunkSize * (j + Suc k)) ?L"
  have "a \<le> m1"
    using lt by (simp add: a_def m1_def)
  moreover have "min (chunkSize * j) ?L = a"
    using lt by (simp add: a_def)
  moreover have "bytesSent (STATE (paced t k ?w')) + 4 * m1 = bytesSent (STATE ?w') + 4 * M"
    using ih unfolding idx m1_def M_def by blast
  moreover have "bytesSent (STATE ?w') = bytesSent (STATE w) + 4 * (m1 - a)"
    using b' unfolding m1_def a_def .
  ultimately have "bytesSent (STATE (paced t k ?w')) + 4 * min (chunkSize * j) ?L =
                   bytesSent (STATE w) + 4 * M"
    by linarith
  then have bytes: "bytesSent (STATE (paced t (Suc k) w)) + 4 * min (chunkSize * j) ?L =
                   bytesSent (STATE w) + 4 * min (chunkSize * (j + Suc k)) ?L"
    unfolding M_def by simp
  have "streaming t s xs (chunkSize * (j + Suc k)) (paced t (Suc k) w)"
    using ih idx by simp
  with frames bytes show ?case by blast
qed

lemma frames_needed_bounds:
  "chunkSize * k < length xs + chunkSize \<longleftrightarrow> k \<le> frames_needed xs"
  "length xs \<le> chunkSize * frames_needed xs"
  "chunkSize * frames_needed xs < length xs + chunkSize"
proof -
  show "chunkSize * k < length xs + chunkSize \<longleftrightarrow> k \<le> frames_needed xs"
    unfolding frames_needed_def chunkSize_def
    by (simp add: less_eq_div_iff_mult_less_eq) arith
  show "length xs \<le> chunkSize * frames_needed xs"
    unfolding frames_needed_def chunkSize_def
    using dividend_less_times_div [of 1024 "length xs + 1024 - 1"] by simp
  show "chunkSize * frames_needed xs < length xs + chunkSize"
    unfolding frames_needed_def chunkSize_def
    using times_div_less_eq_dividend [of 1024 "length xs + 1024 - 1"] by simp
qed

lemma paced_summary:
  assumes "streaming t s xs 0 w"
  shows "emitted (paced t k w) = emitted w @ map (frame_at s t xs) [0 ..< min k (frames_needed xs)]"
    and "bytesSent (STATE (paced t k w)) = bytesSent (STATE w) + 4 * min (chunkSize * k) (length xs)"
    and "index (timers (paced t k w) ! t) = chunkSize * min k (frames_needed xs)"
    and "samples (timers (paced t k w) ! t) = xs"
    and "active (timers (paced t k w) ! t) \<longleftrightarrow> k \<le> frames_needed xs"
proof -
  let ?n = "frames_needed xs"
  have s0: "streaming t s xs (chunkSize * 0) w"
    using assms by simp
  have upto: "streaming t s xs (chunkSize * k) (paced t k w) \<and>
         emitted (paced t k w) = emitted w @ map (frame_at s t xs) [0 ..< k] \<and>
         bytesSent (STATE (paced t k w)) = bytesSent (STATE w) + 4 * min (chunkSize * k) (length xs)"
    if "k \<le> ?n" for k
    using paced_progress [OF s0, of k] that by (simp add: frames_needed_bounds)
  let ?wn = "paced t ?n w"
  have beyond: "paced t k w = broadcast status_stopped (cleanupStream False ?wn)"
    if "?n < k" for k
  proof -
    from that obtain m where k: "k = ?n + Suc m"
      by (metis add_Suc_right less_iff_Suc_add)
    have "streaming t s xs (chunkSize * ?n) ?wn"
      using upto [of ?n] by simp
    moreover have "length xs \<le> chunkSize * ?n"
      by (rule frames_needed_bounds)
    ultimately have "paced t (Suc m) ?wn = broadcast status_stopped (cleanupStream False ?wn)"
      by (rule paced_finish)
    then show ?thesis
      unfolding k paced_add .
  qed
  have sn: "streaming t s xs (chunkSize * ?n) ?wn"
    using upto [of ?n] by simp
  show "emitted (paced t k w) = emitted w @ map (frame_at s t xs) [0 ..< min k ?n]"
    using upto [of k] upto [of ?n] beyond [of k]
    by (cases "k \<le> ?n") (simp_all add: broadcast_def cleanupStream_simps min_def)
  show "bytesSent (STATE (paced t k w)) = bytesSent (STATE w) + 4 * min (chunkSize * k) (length xs)"
  proof (cases "k \<le> ?n")
    case True
    then show ?thesis using upto [of k] by simp
  next
    case False
    then have "length xs \<le> chunkSize * k"
      using frames_needed_bounds(2) [of xs]
      by (meson le_trans mult_le_mono2 nat_le_linear)
    with False upto [of ?n] beyond [of k] frames_needed_bounds(2) [of xs] show ?thesis
      by (simp add: broadcast_def cleanupStream_simps min_def)
  qed
  show "index (timers (paced t k w) ! t) = chunkSize * min k ?n"
    using upto [of k] sn beyond [of k]
    by (cases "k \<le> ?n")
       (auto simp: broadcast_def timers_cleanupStream min_def streaming_def)
  show "samples (timers (paced t k w) ! t) = xs"
    using upto [of k] sn beyond [of k]
    by (cases "k \<le> ?n")
       (auto simp: broadcast_def timers_cleanupStream min_def streaming_def)
  show "active (timers (paced t k w) ! t) \<longleftrightarrow> k \<le> ?n"
    using upto [of k] sn beyond [of k]
    by (cases "k \<le> ?n")
       (auto simp: broadcast_def timers_cleanupStream min_def streaming_def)
qed

lemma length_chunks: "length (chunks xs) = frames_needed xs"
  by (simp add: chunks_def frames_needed_def)

lemma concat_subarrays:
  "concat (map (\<lambda>j. subarray xs (chunkSize * j) (chunkSize * j + chunkSize)) [0 ..< m]) =
     take (chunkSize * m) xs"
proof (induction m)
  case 0
  then show ?case by simp
next
  case (Suc m)
  have "take (chunkSize * m) xs @ drop (chunkSize * m) (take (chunkSize * m + chunkSize) xs) =
        take (chunkSize * m + chunkSize) xs"
    by (metis append_take_drop_id le_add1 min.absorb1 take_take)
  with Suc show ?case
    by (simp add: subarray_def add.commute)
qed

lemma concat_chunks: "concat (chunks xs) = xs"
  using frames_needed_bounds(2) [of xs]
  by (simp add: chunks_def concat_subarrays frames_needed_def)

lemma take_chunks:
  "take k (chunks xs) =
     map (\<lambda>j. subarray xs (chunkSize * j) (chunkSize * j + chunkSize)) [0 ..< min k (frames_needed xs)]"
proof -
  have "take k [0 ..< frames_needed xs] = [0 ..< min k (frames_needed xs)]"
    by (cases "k \<le> frames_needed xs") (simp_all add: min_def)
  then show ?thesis
    by (simp add: chunks_def take_map frames_needed_def)
qed


lemma ceil_frames: "nat \<lceil>real (length xs) / 1024\<rceil> = frames_needed xs"
proof -
  let ?L = "length xs"
  have lo: "real_of_int (int (frames_needed xs)) - 1 < real ?L / 1024"
  proof -
    have "real (chunkSize * frames_needed xs) < real (?L + chunkSize)"
      using frames_needed_bounds(3) [of xs] by (simp del: of_nat_mult of_nat_add)
    then show ?thesis by (simp add: chunkSize_def)
  qed
  have hi: "real ?L / 1024 \<le> real_of_int (int (frames_needed xs))"
  proof -
    have "real ?L \<le> real (chunkSize * frames_needed xs)"
      using frames_needed_bounds(2) [of xs] by (simp del: of_nat_mult of_nat_add)
    then show ?thesis by (simp add: chunkSize_def)
  qed
  have "\<lceil>real ?L / 1024\<rceil> = int (frames_needed xs)"
    using lo hi by (rule ceiling_unique)
  then show ?thesis by simp
qed

lemma last_chunk_length:
  assumes "xs \<noteq> []"
  shows "length (last (chunks xs)) =
           (if length xs mod 1024 = 0 then 1024 else length xs mod 1024)"
proof -
  let ?n = "frames_needed xs" and ?L = "length xs"
  have pos: "0 < ?n"
    using assms frames_needed_bounds(2) [of xs] by (cases "?n") auto
  then have ne: "chunks xs \<noteq> []"
    by (simp add: chunks_def)
  have "last (chunks xs) = chunks xs ! (?n - 1)"
    using ne by (simp add: last_conv_nth length_chunks)
  also have "\<dots> = subarray xs (chunkSize * (?n - 1)) (chunkSize * (?n - 1) + chunkSize)"
    using pos by (simp add: chunks_def)
  finally have "length (last (chunks xs)) = min (chunkSize * (?n - 1) + chunkSize) ?L - chunkSize * (?n - 1)"
    by (simp add: length_subarray)
  moreover have "chunkSize * (?n - 1) + chunkSize = chunkSize * ?n"
    using pos by (cases ?n) simp_all
  ultimately have len: "length (last (chunks xs)) = ?L - chunkSize * (?n - 1)"
    using frames_needed_bounds(2) [of xs] by simp
  have n: "?n - 1 = (?L - 1) div 1024"
    using assms by (simp add: frames_needed_def chunkSize_def)
  from assms obtain m where m: "?L = Suc m"
    by (cases xs) auto
  have dm: "m = 1024 * (m div 1024) + m mod 1024"
    by simp
  have "m mod 1024 < 1024"
    by simp
  then have "Suc m - 1024 * (m div 1024) = Suc (m mod 1024)"
    using dm by linarith
  then show ?thesis
    unfolding len n chunkSize_def m by (simp add: mod_Suc)
qed


lemma butlast_chunks_full:
  assumes "c \<in> set (butlast (chunks xs))"
  shows "length c = 1024"
proof -
  let ?n = "frames_needed xs"
  from assms obtain j where j: "j < length (butlast (chunks xs))" and c: "c = butlast (chunks xs) ! j"
    by (metis in_set_conv_nth)
  then have jn: "Suc j < ?n"
    by (simp add: length_chunks)
  then have "c = subarray xs (chunkSize * j) (chunkSize * j + chunkSize)"
    using c j by (simp add: nth_butlast chunks_def)
  moreover have "chunkSize * Suc j \<le> chunkSize * (?n - 1)"
    using jn by (intro mult_le_mono2) simp
  moreover have "chunkSize * (?n - 1) < length xs"
    using jn frames_needed_bounds(3) [of xs] by (cases ?n) simp_all
  ultimately show ?thesis
    by (simp add: length_subarray chunkSize_def)
qed

lemma chunks_2500: "chunks (replicate 2500 (0::nat)) = [replicate 1024 0, replicate 1024 0, replicate 452 0]"
  by (simp add: chunks_def frames_needed_def chunkSize_def subarray_def upt_rec)

subsection \<open>What one step does to intervals and frames\<close>

lemma nth_update_in_range:
  "t < length xs \<Longrightarrow> xs[i := v] ! t = (if i = t then v else xs ! t)"
  by simp

lemma length_timers_step: "length (timers w) \<le> length (timers (step w e))"
  by (cases e)
     (simp_all add: handler_defs cleanupStream_simps
        split: option.split play.split upload.split send.split json.split)

lemma index_mono_step:
  "t < length (timers w) \<Longrightarrow> index (timers w ! t) \<le> index (timers (step w e) ! t)"
  by (cases e)
     (simp_all add: handler_defs cleanupStream_simps timers_cleanupStream nth_update_in_range nth_append
        split: option.split play.split upload.split send.split json.split)


lemma samples_step:
  "t < length (timers w) \<Longrightarrow> samples (timers (step w e) ! t) = samples (timers w ! t)"
  by (cases e)
     (simp_all add: handler_defs cleanupStream_simps timers_cleanupStream nth_update_in_range nth_append
        split: option.split play.split upload.split send.split json.split)

lemma emitted_step:
  "emitted (step w e) = emitted w \<or>
   (\<exists>t s. e = TimerTick t \<and> t < length (timers w) \<and> active (timers w ! t) \<and>
      emitted (step w e) = emitted w @
        [\<lparr> sock = s, timer = t, cursor = index (timers w ! t),
           payload = subarray (samples (timers w ! t)) (index (timers w ! t))
                       (index (timers w ! t) + chunkSize) \<rparr>])"
  by (cases e)
     (simp_all add: handler_defs cleanupStream_simps
        split: option.split play.split upload.split send.split json.split)


lemma run_Nil [simp]: "run w [] = w"
  by (simp add: run_def)

lemma run_Cons [simp]: "run w (e # evs) = run (step w e) evs"
  by (simp add: run_def)

lemma run_snoc: "run w (evs @ [e]) = step (run w evs) e"
  by (simp add: run_def)

lemma cursors_bounded_step:
  assumes "cursors_bounded w"
  shows "cursors_bounded (step w e)"
proof -
  have old: "timer fr < length (timers (step w e)) \<and>
             cursor fr \<le> index (timers (step w e) ! timer fr)"
    if "fr \<in> set (emitted w)" for fr
  proof -
    from assms that have a: "timer fr < length (timers w)"
      and b: "cursor fr \<le> index (timers w ! timer fr)"
      by (auto simp: cursors_bounded_def)
    from a length_timers_step [of w e] have "timer fr < length (timers (step w e))"
      by simp
    moreover from b index_mono_step [OF a, of e]
    have "cursor fr \<le> index (timers (step w e) ! timer fr)"
      by simp
    ultimately show ?thesis ..
  qed
  from emitted_step [of w e] show ?thesis
  proof
    assume "emitted (step w e) = emitted w"
    with old show ?thesis
      by (simp add: cursors_bounded_def)
  next
    assume "\<exists>t s. e = TimerTick t \<and> t < length (timers w) \<and> active (timers w ! t) \<and>
      emitted (step w e) = emitted w @
        [\<lparr> sock = s, timer = t, cursor = index (timers w ! t),
           payload = subarray (samples (timers w ! t)) (index (timers w ! t))
                       (index (timers w ! t) + chunkSize) \<rparr>]"
    then obtain t fr where t: "t < length (timers w)"
      and fr: "timer fr = t" "cursor fr = index (timers w ! t)"
      and em: "emitted (step w e) = emitted w @ [fr]"
      by fastforce
    have "timer fr < length (timers (step w e)) \<and>
          cursor fr \<le> index (timers (step w e) ! timer fr)"
      using t fr length_timers_step [of w e] index_mono_step [OF t, of e] by simp
    with old em show ?thesis
      by (auto simp: cursors_bounded_def)
  qed
qed

lemma cursors_sorted_step:
  assumes "cursors_bounded w" and "sorted (map cursor (frames_of t w))"
  shows "sorted (map cursor (frames_of t (step w e)))"
proof -
  from emitted_step [of w e] show ?thesis
  proof
    assume "emitted (step w e) = emitted w"
    with assms(2) show ?thesis
      by (simp add: frames_of_def)
  next
    assume "\<exists>t s. e = TimerTick t \<and> t < length (timers w) \<and> active (timers w ! t) \<and>
      emitted (step w e) = emitted w @
        [\<lparr> sock = s, timer = t, cursor = index (timers w ! t),
           payload = subarray (samples (timers w ! t)) (index (timers w ! t))
                       (index (timers w ! t) + chunkSize) \<rparr>]"
    then obtain t' fr where fr: "timer fr = t'" "cursor fr = index (timers w ! t')"
      and em: "emitted (step w e) = emitted w @ [fr]"
      by fastforce
    show ?thesis
    proof (cases "t' = t")
      case True
      have "\<forall>c \<in> set (map cursor (frames_of t w)). c \<le> cursor fr"
        using assms(1) fr True by (auto simp: cursors_bounded_def frames_of_def)
      with assms(2) show ?thesis
        using em fr True by (simp add: frames_of_def sorted_append)
    next
      case False
      with assms(2) em fr show ?thesis
        by (simp add: frames_of_def)
    qed
  qed
qed

lemma cursors_run:
  "cursors_bounded (run (init d) evs) \<and> sorted (map cursor (frames_of t (run (init d) evs)))"
proof (induction evs rule: rev_induct)
  case Nil
  show ?case by (simp add: cursors_bounded_def init_def frames_of_def)
next
  case (snoc e evs)
  then show ?case
    by (simp add: run_snoc cursors_bounded_step cursors_sorted_step)
qed



lemma index_mono_run:
  "t < length (timers w) \<Longrightarrow> index (timers w ! t) \<le> index (timers (run w evs) ! t)"
proof (induction evs arbitrary: w)
  case Nil
  then show ?case by simp
next
  case (Cons e evs)
  have "t < length (timers (step w e))"
    using Cons.prems length_timers_step [of w e] by simp
  from Cons.IH [OF this] index_mono_step [OF Cons.prems, of e] show ?case
    by simp
qed

subsection \<open>Scheduled intervals, and the phases of a start\<close>

lemma set_active_timers:
  "set (active_timers w) = {t. t < length (timers w) \<and> active (timers w ! t)}"
  by (auto simp: active_timers_def)

lemma active_timers_Nil:
  "active_timers w = [] \<longleftrightarrow> (\<forall>t < length (timers w). \<not> active (timers w ! t))"
  by (auto simp: active_timers_def filter_empty_conv)

lemma active_timers_single:
  assumes "active_timers w = [t]"
  shows "t < length (timers w)" and "t' < length (timers w) \<Longrightarrow> active (timers w ! t') \<Longrightarrow> t' = t"
  using set_active_timers [of w] assms by auto


lemma active_timers_cleanup:
  assumes "playTimer w = Some t" "active_timers w = [t]"
  shows "active_timers (cleanupStream b w) = []"
  using assms active_timers_single [OF assms(2)]
  by (auto simp: active_timers_Nil timers_cleanupStream nth_update_in_range)







lemma play_request_wav:
  assumes "disk w f = Some (Wav ys)" "f \<noteq> []"
  shows "play_request (Some (JStr f)) w =
           (cleanupStream True w)\<lparr> plays := plays w @ [AwaitDecode f (Wav ys)] \<rparr>"
  using assms by (simp add: play_request_def cleanupStream_simps)



lemma play_request_corrupt:
  assumes "disk w f = Some Corrupt" "f \<noteq> []"
  shows "play_request (Some (JStr f)) w =
           (cleanupStream True w)\<lparr> plays := plays w @ [AwaitDecode f Corrupt] \<rparr>"
  using assms by (simp add: play_request_def cleanupStream_simps)

lemma play_request_unreadable:
  assumes "disk w f = Some Unreadable" "f \<noteq> []"
  shows "play_request (Some (JStr f)) w =
           respond 500 (error_body ''failed to play'') (cleanupStream True w)"
  using assms by (simp add: play_request_def cleanupStream_simps)

lemma torn_down:
  assumes "playTimer w = Some t" "active_timers w = [t]" "zmqSock w = Some s" "s < length (sockets w)"
  shows "active_timers (cleanupStream True w) = []"
    and "closes (sockets (cleanupStream True w) ! s) = Suc (closes (sockets w ! s))"
    and "STATE (cleanupStream True w) = (STATE w)\<lparr> bytesSent := 0 \<rparr>"
  using assms active_timers_cleanup [OF assms(1,2), of True]
  by (simp_all add: sockets_cleanupStream cleanupStream_simps)



subsection \<open>Commands handled one at a time\<close>



lemma single_session_respond [simp]: "single_session (respond c b w) = single_session w"
  by (simp add: single_session_def respond_def)

lemma single_session_broadcast [simp]: "single_session (broadcast m w) = single_session w"
  by (simp add: single_session_def broadcast_def)



















subsection \<open>Unfolding for the concrete runs\<close>

lemmas eval_defs =
  init_def studio_disk_def handler_defs cleanupStream_simps sockets_cleanupStream
  timers_cleanupStream subarray_def byteLength_def chunkSize_def active_timers_def
  frames_of_def status_body_def

subsection \<open>Status\<close>

text \<open>
  C9, as the code has it. \<^verbatim>\<open>GET /api/stream-status\<close> answers in the step in which it
  arrives, whatever handlers and callbacks are suspended; it changes nothing but the
  list of responses; and its body is the object with the keys \<^verbatim>\<open>playing\<close>,
  \<^verbatim>\<open>currentFileId\<close> and \<^verbatim>\<open>bytesSent\<close>, in this order, holding the three fields of
  \<^verbatim>\<open>STATE\<close> (the second one \<^verbatim>\<open>null\<close> or a string).
\<close>

theorem status_is_pure_read:
  "step w GetStatus =
     w\<lparr> responses := responses w @
          [(200, JObj [(''playing'', JBool (playing (STATE w))),
                       (''currentFileId'',
                          (case currentFile (STATE w) of None \<Rightarrow> JNull | Some f \<Rightarrow> JStr f)),
                       (''bytesSent'', JNum (bytesSent (STATE w)))])] \<rparr>"
  by (simp add: status_request_def respond_def status_body_def)

text \<open>
  C9, as the claim has it, fails on the name of the second key: the body has no key
  \<^verbatim>\<open>currentFile\<close>.
\<close>

theorem status_shape_counterexample:
  "keys (snd (last (responses (step (init studio_disk) GetStatus))))
     \<noteq> [''playing'', ''currentFile'', ''bytesSent'']"
  by (simp add: status_request_def respond_def status_body_def init_def keys_def)

subsection \<open>Start with an unknown reference\<close>



subsection \<open>Stop\<close>

text \<open>
  C6, as the code has it. \<^verbatim>\<open>POST /api/pause\<close> has no test for an active session: every
  call runs the cleanup, sets \<^verbatim>\<open>STATE.playing\<close> to false, broadcasts one stopped-status
  event and answers \<^verbatim>\<open>{ok: true}\<close>. A second call right after the first changes nothing
  in the state but adds a second broadcast and a second response.
\<close>

theorem pause_always_broadcasts:
  "broadcasts (step w PostPause) = broadcasts w @ [status_stopped] \<and>
   responses (step w PostPause) = responses w @ [(200, ok_body)] \<and>
   STATE (step w PostPause) = (STATE w)\<lparr> playing := False \<rparr> \<and>
   playTimer (step w PostPause) = None \<and>
   zmqSock (step w PostPause) = None \<and>
   step (step w PostPause) PostPause =
     (step w PostPause)\<lparr> broadcasts := broadcasts w @ [status_stopped, status_stopped],
                          responses := responses w @ [(200, ok_body), (200, ok_body)] \<rparr>"
  by (simp add: pause_request_def broadcast_def respond_def cleanupStream_simps Let_def
        cleanupStream_idle sockets_cleanupStream timers_cleanupStream)

text \<open>
  C6, as the claim has it, fails in the initial state: a stop with no session broadcasts,
  and two stops in a row broadcast twice.
\<close>

theorem double_stop_counterexample:
  "broadcasts (run (init studio_disk) [PostPause]) = [status_stopped] \<and>
   broadcasts (run (init studio_disk) [PostPause, PostPause]) = [status_stopped, status_stopped]"
  by (simp add: run_def pause_request_def broadcast_def respond_def cleanupStream_simps
        Let_def init_def)

subsection \<open>Natural completion\<close>

text \<open>
  C5 at a concrete run: the one-sample file is started, its only frame is sent, and the
  next firing finds \<^verbatim>\<open>index >= samples.length\<close>. That firing clears the interval, closes
  the publisher and broadcasts the stopped status, but \<^verbatim>\<open>STATE.playing\<close> is not assigned:
  it is still true afterwards, and a status request is answered with \<^verbatim>\<open>playing: true\<close>.
  The pause handler, which broadcasts the same event, assigns the flag first.
\<close>

theorem completion_keeps_playing_flag:
  "playing (STATE (run (init studio_disk)
      [PostPlay (Some (JStr ''b.wav'')), DecodeSettled 0, ConnectResolved 0,
       TimerTick 0, SendResolved 0, TimerTick 0])) \<and>
   last (broadcasts (run (init studio_disk)
      [PostPlay (Some (JStr ''b.wav'')), DecodeSettled 0, ConnectResolved 0,
       TimerTick 0, SendResolved 0, TimerTick 0])) = status_stopped \<and>
   active_timers (run (init studio_disk)
      [PostPlay (Some (JStr ''b.wav'')), DecodeSettled 0, ConnectResolved 0,
       TimerTick 0, SendResolved 0, TimerTick 0]) = [] \<and>
   map closes (sockets (run (init studio_disk)
      [PostPlay (Some (JStr ''b.wav'')), DecodeSettled 0, ConnectResolved 0,
       TimerTick 0, SendResolved 0, TimerTick 0])) = [1] \<and>
   snd (last (responses (run (init studio_disk)
      [PostPlay (Some (JStr ''b.wav'')), DecodeSettled 0, ConnectResolved 0,
       TimerTick 0, SendResolved 0, TimerTick 0, GetStatus]))) =
     JObj [(''playing'', JBool True), (''currentFileId'', JStr ''b.wav''),
           (''bytesSent'', JNum 4)]"
  by (simp add: run_def init_def studio_disk_def handler_defs cleanupStream_simps
        sockets_cleanupStream timers_cleanupStream
        subarray_def byteLength_def chunkSize_def active_timers_def status_body_def)

subsection \<open>Chunking\<close>

text \<open>
  C4, with the figure of its example put right. A file of samples \<open>xs\<close> is started and its
  loop runs paced. After \<open>k\<close> firings the frames handed to the publisher since the start
  are the first \<open>k\<close> chunks of \<open>xs\<close>, and all of them once \<open>k\<close> reaches their number: the
  loop emits exactly \<open>\<lceil>L / 1024\<rceil>\<close> frames for \<open>L\<close> samples. The chunks are consecutive
  sub-ranges (their concatenation is \<open>xs\<close>), each of 1024 samples except the last, which has
  \<open>L mod 1024\<close> samples, or 1024 when that is 0. \<^verbatim>\<open>STATE.bytesSent\<close> after \<open>k\<close> firings is four
  times the number of samples sent so far, \<open>min (1024 k) L\<close>. For \<open>L = 2500\<close> the frame sizes
  are 1024, 1024, 452 and \<^verbatim>\<open>bytesSent\<close> goes 4096, 8192, 10000.
\<close>

theorem emission_chunks:
  assumes "disk w f = Some (Wav xs)" and "f \<noteq> []"
  shows "map payload (drop (length (emitted w)) (emitted (paced (length (timers w)) k (start f w))))
           = take k (chunks xs) \<and>
         length (chunks xs) = nat \<lceil>real (length xs) / 1024\<rceil> \<and>
         concat (chunks xs) = xs \<and>
         (\<forall>c \<in> set (butlast (chunks xs)). length c = 1024) \<and>
         (xs \<noteq> [] \<longrightarrow>
            length (last (chunks xs)) =
              (if length xs mod 1024 = 0 then 1024 else length xs mod 1024)) \<and>
         bytesSent (STATE (paced (length (timers w)) k (start f w))) =
           4 * length (concat (take k (chunks xs))) \<and>
         length (concat (take k (chunks xs))) = min (1024 * k) (length xs)"
proof -
  let ?t = "length (timers w)" and ?s = "length (sockets w)"
  have st: "streaming ?t ?s xs 0 (start f w)"
    using assms by (rule start_streaming)
  have "emitted (paced ?t k (start f w)) =
          emitted w @ map (frame_at ?s ?t xs) [0 ..< min k (frames_needed xs)]"
    using paced_summary(1) [OF st, of k] assms by (simp add: start_fields)
  then have frames: "map payload (drop (length (emitted w)) (emitted (paced ?t k (start f w))))
           = take k (chunks xs)"
    by (simp add: take_chunks frame_at_def comp_def)
  have cum: "length (concat (take k (chunks xs))) = min (1024 * k) (length xs)"
  proof -
    have "chunkSize * min k (frames_needed xs) = min (chunkSize * k) (chunkSize * frames_needed xs)"
      by (simp add: min_def)
    then show ?thesis
      using frames_needed_bounds(2) [of xs]
      by (simp add: take_chunks concat_subarrays) (simp add: chunkSize_def)
  qed
  have bytes: "bytesSent (STATE (paced ?t k (start f w))) = 4 * length (concat (take k (chunks xs)))"
    using paced_summary(2) [OF st, of k] assms
    by (simp add: start_fields cum) (simp add: chunkSize_def)
  show ?thesis
    using frames bytes cum butlast_chunks_full [of _ xs] last_chunk_length [of xs]
    by (simp add: length_chunks ceil_frames concat_chunks)
qed


theorem emission_chunks_witness:
  "map payload (emitted (paced 0 3 (start ''a.wav'' (init studio_disk)))) =
     [replicate 1024 0, replicate 1024 0, replicate 452 0] \<and>
   bytesSent (STATE (paced 0 1 (start ''a.wav'' (init studio_disk)))) = 4096 \<and>
   bytesSent (STATE (paced 0 2 (start ''a.wav'' (init studio_disk)))) = 8192 \<and>
   bytesSent (STATE (paced 0 3 (start ''a.wav'' (init studio_disk)))) = 10000 \<and>
   map payload (emitted (paced 0 7 (start ''a.wav'' (init studio_disk)))) =
     [replicate 1024 0, replicate 1024 0, replicate 452 0]"
proof -
  have d: "disk (init studio_disk) ''a.wav'' = Some (Wav (replicate 2500 0))"
    by (simp add: init_def studio_disk_def)
  have ne: "''a.wav'' \<noteq> []"
    by simp
  have i: "emitted (init studio_disk) = []" "timers (init studio_disk) = []"
    by (simp_all add: init_def)
  show ?thesis
    using emission_chunks [OF d ne, of 1] emission_chunks [OF d ne, of 2]
      emission_chunks [OF d ne, of 3] emission_chunks [OF d ne, of 7]
    by (simp add: i chunks_2500)
qed

text \<open>
  C4 with the figures of the claim fails on the last one: after the third frame of 2500
  samples \<^verbatim>\<open>bytesSent\<close> is 10000, not 9904.
\<close>

theorem bytes_example_counterexample:
  "map (\<lambda>k. bytesSent (STATE (paced 0 k (start ''a.wav'' (init studio_disk))))) [1, 2, 3]
     \<noteq> [4096, 8192, 9904]"
proof -
  have "disk (init studio_disk) ''a.wav'' = Some (Wav (replicate 2500 0))"
    by (simp add: init_def studio_disk_def)
  then have "streaming (length (timers (init studio_disk))) (length (sockets (init studio_disk)))
               (replicate 2500 0) 0 (start ''a.wav'' (init studio_disk))"
    by (rule start_streaming) simp
  then have st: "streaming 0 0 (replicate 2500 0) 0 (start ''a.wav'' (init studio_disk))"
    by (simp add: init_def)
  have "STATE (start ''a.wav'' (init studio_disk)) = \<lparr> playing = True, currentFile = Some ''a.wav'', bytesSent = 0 \<rparr>"
    by (rule start_fields) (simp_all add: init_def studio_disk_def)
  then have "bytesSent (STATE (paced 0 3 (start ''a.wav'' (init studio_disk)))) = 10000"
    using paced_summary(2) [OF st, of 3] by (simp add: chunkSize_def)
  then show ?thesis by simp
qed


subsection \<open>The cursor\<close>

text \<open>
  C8, as the code has it. No step lowers the \<^verbatim>\<open>index\<close> of an interval, so it never
  decreases along any run. It is advanced by \<^verbatim>\<open>chunkSize\<close> after every send, whatever the
  length of the frame, so after a last, shorter frame it lies beyond \<^verbatim>\<open>samples.length\<close>:
  in a paced loop it is \<open>1024 * min k \<lceil>L / 1024\<rceil>\<close> after \<open>k\<close> firings, which stays below
  \<open>L + 1024\<close>.
\<close>

theorem cursor_monotone_overshoots:
  "(t < length (timers v) \<longrightarrow> index (timers v ! t) \<le> index (timers (run v evs) ! t)) \<and>
   (disk w f = Some (Wav xs) \<and> f \<noteq> [] \<longrightarrow>
      index (timers (paced (length (timers w)) k (start f w)) ! length (timers w)) =
        1024 * min k (frames_needed xs) \<and>
      index (timers (paced (length (timers w)) k (start f w)) ! length (timers w)) <
        length xs + 1024)"
proof -
  have "index (timers (paced (length (timers w)) k (start f w)) ! length (timers w)) =
          1024 * min k (frames_needed xs) \<and>
        index (timers (paced (length (timers w)) k (start f w)) ! length (timers w)) <
          length xs + 1024"
    if d: "disk w f = Some (Wav xs)" and f: "f \<noteq> []"
  proof -
    have st: "streaming (length (timers w)) (length (sockets w)) xs 0 (start f w)"
      using d f by (rule start_streaming)
    have "chunkSize * min k (frames_needed xs) \<le> chunkSize * frames_needed xs"
      by (intro mult_le_mono2) simp
    then have "chunkSize * min k (frames_needed xs) < length xs + chunkSize"
      using frames_needed_bounds(3) [of xs] by linarith
    then show ?thesis
      using paced_summary(3) [OF st, of k] by (simp add: chunkSize_def)
  qed
  then show ?thesis
    using index_mono_run [of t v evs] by blast
qed

theorem cursor_monotone_overshoots_witness:
  "0 < length (timers (start ''b.wav'' (init studio_disk))) \<and>
   index (timers (start ''b.wav'' (init studio_disk)) ! 0)
     \<le> index (timers (run (start ''b.wav'' (init studio_disk)) [TimerTick 0, SendResolved 0]) ! 0) \<and>
   disk (init studio_disk) ''b.wav'' = Some (Wav [1]) \<and>
   index (timers (paced 0 5 (start ''b.wav'' (init studio_disk))) ! 0) = 1024"
proof -
  have d: "disk (init studio_disk) ''b.wav'' = Some (Wav [1]) \<and> ''b.wav'' \<noteq> []"
    by (simp add: init_def studio_disk_def)
  have n: "min 5 (frames_needed [1::nat]) = 1"
    by (simp add: frames_needed_def chunkSize_def)
  have t: "length (timers (init studio_disk)) = 0"
    by (simp add: init_def)
  have len: "0 < length (timers (start ''b.wav'' (init studio_disk)))"
    using d by (simp add: start_fields)
  note inst = cursor_monotone_overshoots
    [where t = 0 and v = "start ''b.wav'' (init studio_disk)"
       and evs = "[TimerTick 0, SendResolved 0]" and w = "init studio_disk"
       and f = "''b.wav''" and xs = "[1]" and k = 5]
  from inst len have mono:
    "index (timers (start ''b.wav'' (init studio_disk)) ! 0)
       \<le> index (timers (run (start ''b.wav'' (init studio_disk)) [TimerTick 0, SendResolved 0]) ! 0)"
    by blast
  from inst d have
    "index (timers (paced (length (timers (init studio_disk))) 5 (start ''b.wav'' (init studio_disk)))
       ! length (timers (init studio_disk))) = 1024 * min 5 (frames_needed [1::nat])"
    by blast
  then have "index (timers (paced 0 5 (start ''b.wav'' (init studio_disk))) ! 0) = 1024"
    unfolding t n by simp
  with len mono d show ?thesis by blast
qed

text \<open>
  C8, as the claim has it, fails for the one-sample file: after its only frame the cursor
  is 1024.
\<close>

theorem cursor_bound_counterexample:
  "length (samples (timers (run (init studio_disk)
      [PostPlay (Some (JStr ''b.wav'')), DecodeSettled 0, ConnectResolved 0,
       TimerTick 0, SendResolved 0]) ! 0)) = 1 \<and>
   index (timers (run (init studio_disk)
      [PostPlay (Some (JStr ''b.wav'')), DecodeSettled 0, ConnectResolved 0,
       TimerTick 0, SendResolved 0]) ! 0) = 1024"
  by (simp add: init_def studio_disk_def handler_defs cleanupStream_simps
        sockets_cleanupStream timers_cleanupStream subarray_def byteLength_def chunkSize_def)

subsection \<open>Order of the frames\<close>

text \<open>
  C3, as the code has it. In every run from the initial state, whatever the interleaving,
  the frames one interval has sent are in non-decreasing cursor order. When the loop is
  paced (each send resolves before the next firing) the cursors are \<open>0, 1024, 2048, \<dots>\<close>,
  strictly increasing. Nothing makes a firing wait for the send of the one before: the
  interval is driven by time alone.
\<close>

theorem frames_in_cursor_order:
  "sorted (map cursor (frames_of t (run (init d) evs))) \<and>
   (disk w f = Some (Wav xs) \<and> f \<noteq> [] \<longrightarrow>
      map cursor (drop (length (emitted w)) (emitted (paced (length (timers w)) k (start f w)))) =
        map (\<lambda>j. 1024 * j) [0 ..< min k (frames_needed xs)] \<and>
      sorted_wrt (<)
        (map cursor (drop (length (emitted w)) (emitted (paced (length (timers w)) k (start f w))))))"
proof -
  have paced_part:
    "map cursor (drop (length (emitted w)) (emitted (paced (length (timers w)) k (start f w)))) =
        map (\<lambda>j. 1024 * j) [0 ..< min k (frames_needed xs)]"
    if d: "disk w f = Some (Wav xs)" and f: "f \<noteq> []"
  proof -
    have st: "streaming (length (timers w)) (length (sockets w)) xs 0 (start f w)"
      using d f by (rule start_streaming)
    show ?thesis
      using paced_summary(1) [OF st, of k] d f
      by (simp add: start_fields frame_at_def comp_def chunkSize_def)
  qed
  have "sorted_wrt (<) (map (\<lambda>j. 1024 * j) [0 ..< n])" for n :: nat
    by (simp add: sorted_wrt_map sorted_wrt_iff_nth_less)
  with paced_part show ?thesis
    using cursors_run [of d evs t] by simp
qed


theorem frames_in_cursor_order_witness:
  "sorted (map cursor (frames_of 0 (run (init studio_disk)
      [PostPlay (Some (JStr ''a.wav'')), DecodeSettled 0, ConnectResolved 0,
       TimerTick 0, TimerTick 0, SendResolved 0, SendResolved 1, TimerTick 0]))) \<and>
   map cursor (frames_of 0 (run (init studio_disk)
      [PostPlay (Some (JStr ''a.wav'')), DecodeSettled 0, ConnectResolved 0,
       TimerTick 0, TimerTick 0, SendResolved 0, SendResolved 1, TimerTick 0])) = [0, 0, 2048] \<and>
   disk (init studio_disk) ''a.wav'' = Some (Wav (replicate 2500 0)) \<and>
   map cursor (emitted (paced 0 3 (start ''a.wav'' (init studio_disk)))) = [0, 1024, 2048]"
proof -
  have d: "disk (init studio_disk) ''a.wav'' = Some (Wav (replicate 2500 0)) \<and> ''a.wav'' \<noteq> []"
    by (simp add: init_def studio_disk_def)
  have n: "min 3 (frames_needed (replicate 2500 (0::nat))) = 3"
    by (simp add: frames_needed_def chunkSize_def)
  have i: "length (timers (init studio_disk)) = 0" "length (emitted (init studio_disk)) = 0"
    by (simp_all add: init_def)
  note inst = frames_in_cursor_order
    [where t = 0 and d = studio_disk
       and evs = "[PostPlay (Some (JStr ''a.wav'')), DecodeSettled 0, ConnectResolved 0,
                   TimerTick 0, TimerTick 0, SendResolved 0, SendResolved 1, TimerTick 0]"
       and w = "init studio_disk" and f = "''a.wav''" and xs = "replicate 2500 0" and k = 3]
  from inst have srt: "sorted (map cursor (frames_of 0 (run (init studio_disk)
      [PostPlay (Some (JStr ''a.wav'')), DecodeSettled 0, ConnectResolved 0,
       TimerTick 0, TimerTick 0, SendResolved 0, SendResolved 1, TimerTick 0])))"
    by blast
  from inst d have
    "map cursor (drop (length (emitted (init studio_disk)))
        (emitted (paced (length (timers (init studio_disk))) 3 (start ''a.wav'' (init studio_disk))))) =
     map (\<lambda>j. 1024 * j) [0 ..< min 3 (frames_needed (replicate 2500 (0::nat)))]"
    by blast
  then have pc: "map cursor (emitted (paced 0 3 (start ''a.wav'' (init studio_disk)))) = [0, 1024, 2048]"
    unfolding i n by (simp add: upt_rec)
  have ev: "map cursor (frames_of 0 (run (init studio_disk)
      [PostPlay (Some (JStr ''a.wav'')), DecodeSettled 0, ConnectResolved 0,
       TimerTick 0, TimerTick 0, SendResolved 0, SendResolved 1, TimerTick 0])) = [0, 0, 2048]"
    by (simp add: init_def studio_disk_def handler_defs cleanupStream_simps frames_of_def
        sockets_cleanupStream timers_cleanupStream subarray_def byteLength_def chunkSize_def)
  from srt ev d pc show ?thesis by blast
qed

text \<open>
  C3, as the claim has it, fails when the interval fires twice before the first send has
  resolved: both firings read \<^verbatim>\<open>index = 0\<close>, the frame at cursor 0 is handed over twice,
  and two sends are in flight.
\<close>

theorem overlapping_ticks_counterexample:
  "\<not> sorted_wrt (<) (map cursor (frames_of 0 (run (init studio_disk)
      [PostPlay (Some (JStr ''a.wav'')), DecodeSettled 0, ConnectResolved 0,
       TimerTick 0, TimerTick 0]))) \<and>
   sends (run (init studio_disk)
      [PostPlay (Some (JStr ''a.wav'')), DecodeSettled 0, ConnectResolved 0,
       TimerTick 0, TimerTick 0]) = [AwaitSend 0 4096, AwaitSend 0 4096]"
  by (simp add: init_def studio_disk_def handler_defs cleanupStream_simps frames_of_def
        sockets_cleanupStream timers_cleanupStream subarray_def byteLength_def chunkSize_def)


subsection \<open>A start over a live session\<close>




subsection \<open>A start that fails after the existence check\<close>

text \<open>
  C10. A session is live in \<open>w\<close> (interval \<open>t\<close>, publisher \<open>s\<close>) and a start of an existing
  file fails: the decoder rejects the file, or it decodes and the connect rejects, or the
  file cannot be read. The request is answered with 500 and nothing is broadcast, but
  \<^verbatim>\<open>cleanupStream(true)\<close> has run first: no interval is scheduled any more, \<^verbatim>\<open>playTimer\<close> is
  null, the publisher \<open>s\<close> has been closed and is no longer current, and \<^verbatim>\<open>bytesSent\<close> is 0,
  while \<^verbatim>\<open>playing\<close> and \<^verbatim>\<open>currentFile\<close> are what they were. A status request after it
  reports the old \<^verbatim>\<open>playing\<close> flag and file.
\<close>

theorem failed_start_tears_down:
  assumes live: "playTimer w = Some t" "active_timers w = [t]" "zmqSock w = Some s"
      "s < length (sockets w)"
    and ref: "f \<noteq> []"
    and fails:
      "disk w f = Some Corrupt \<and>
         w' = run w [PostPlay (Some (JStr f)), DecodeSettled (length (plays w))] \<or>
       disk w f = Some (Wav xs) \<and>
         w' = run w [PostPlay (Some (JStr f)), DecodeSettled (length (plays w)),
                     ConnectRejected (length (plays w))] \<or>
       disk w f = Some Unreadable \<and> w' = run w [PostPlay (Some (JStr f))]"
  shows "responses w' = responses w @ [(500, error_body ''failed to play'')] \<and>
         broadcasts w' = broadcasts w \<and>
         active_timers w' = [] \<and> playTimer w' = None \<and>
         closes (sockets w' ! s) = Suc (closes (sockets w ! s)) \<and> zmqSock w' \<noteq> Some s \<and>
         STATE w' = (STATE w)\<lparr> bytesSent := 0 \<rparr> \<and>
         snd (last (responses (step w' GetStatus))) =
           JObj [(''playing'', JBool (playing (STATE w))),
                 (''currentFileId'',
                    (case currentFile (STATE w) of None \<Rightarrow> JNull | Some g \<Rightarrow> JStr g)),
                 (''bytesSent'', JNum 0)]"
proof -
  let ?c = "cleanupStream True w"
  note td = torn_down [OF live]
  have core: "responses w' = responses w @ [(500, error_body ''failed to play'')] \<and>
         broadcasts w' = broadcasts w \<and>
         active_timers w' = [] \<and> playTimer w' = None \<and>
         closes (sockets w' ! s) = Suc (closes (sockets w ! s)) \<and> zmqSock w' \<noteq> Some s \<and>
         STATE w' = (STATE w)\<lparr> bytesSent := 0 \<rparr>"
    using fails
  proof (elim disjE conjE)
    assume d: "disk w f = Some Corrupt"
      and w': "w' = run w [PostPlay (Some (JStr f)), DecodeSettled (length (plays w))]"
    have "w' = respond 500 (error_body ''failed to play'')
                 (?c\<lparr> plays := (plays w @ [AwaitDecode f Corrupt])[length (plays w) := PlayDone] \<rparr>)"
      unfolding w' by (simp add: play_request_corrupt [OF d ref] play_decoded_def cleanupStream_simps)
    then show ?thesis
      using td live by (simp add: respond_def cleanupStream_simps active_timers_def)
  next
    assume d: "disk w f = Some (Wav xs)"
      and w': "w' = run w [PostPlay (Some (JStr f)), DecodeSettled (length (plays w)),
                     ConnectRejected (length (plays w))]"
    have "w' = respond 500 (error_body ''failed to play'')
                 (?c\<lparr> sockets := sockets ?c @ [\<lparr> connected = False, closes = 0 \<rparr>],
                      zmqSock := Some (length (sockets w)),
                      plays := (plays w @ [AwaitDecode f (Wav xs)])[length (plays w) := PlayDone] \<rparr>)"
      unfolding w'
      by (simp add: play_request_wav [OF d ref] play_decoded_def play_connect_failed_def
            cleanupStream_simps)
    then show ?thesis
      using td live by (simp add: respond_def cleanupStream_simps active_timers_def nth_append)
  next
    assume d: "disk w f = Some Unreadable" and w': "w' = run w [PostPlay (Some (JStr f))]"
    have "w' = respond 500 (error_body ''failed to play'') ?c"
      unfolding w' by (simp add: play_request_unreadable [OF d ref])
    then show ?thesis
      using td live by (simp add: respond_def cleanupStream_simps active_timers_def)
  qed
  then have "snd (last (responses (step w' GetStatus))) =
           JObj [(''playing'', JBool (playing (STATE w))),
                 (''currentFileId'',
                    (case currentFile (STATE w) of None \<Rightarrow> JNull | Some g \<Rightarrow> JStr g)),
                 (''bytesSent'', JNum 0)]"
    by (simp add: status_request_def respond_def status_body_def)
  with core show ?thesis by blast
qed



theorem failed_start_tears_down_witness:
  "playing (STATE (run (init studio_disk)
      [PostPlay (Some (JStr ''a.wav'')), DecodeSettled 0, ConnectResolved 0,
       TimerTick 0, SendResolved 0])) \<and>
   bytesSent (STATE (run (init studio_disk)
      [PostPlay (Some (JStr ''a.wav'')), DecodeSettled 0, ConnectResolved 0,
       TimerTick 0, SendResolved 0])) = 4096 \<and>
   active_timers (run (init studio_disk)
      [PostPlay (Some (JStr ''a.wav'')), DecodeSettled 0, ConnectResolved 0,
       TimerTick 0, SendResolved 0]) = [0] \<and>
   STATE (run (init studio_disk)
      [PostPlay (Some (JStr ''a.wav'')), DecodeSettled 0, ConnectResolved 0,
       TimerTick 0, SendResolved 0,
       PostPlay (Some (JStr ''bad.wav'')), DecodeSettled 1]) =
     \<lparr> playing = True, currentFile = Some ''a.wav'', bytesSent = 0 \<rparr> \<and>
   active_timers (run (init studio_disk)
      [PostPlay (Some (JStr ''a.wav'')), DecodeSettled 0, ConnectResolved 0,
       TimerTick 0, SendResolved 0,
       PostPlay (Some (JStr ''bad.wav'')), DecodeSettled 1]) = [] \<and>
   STATE (run (init studio_disk)
      [PostPlay (Some (JStr ''a.wav'')), DecodeSettled 0, ConnectResolved 0,
       TimerTick 0, SendResolved 0,
       PostPlay (Some (JStr ''b.wav'')), DecodeSettled 1, ConnectRejected 1]) =
     \<lparr> playing = True, currentFile = Some ''a.wav'', bytesSent = 0 \<rparr> \<and>
   active_timers (run (init studio_disk)
      [PostPlay (Some (JStr ''a.wav'')), DecodeSettled 0, ConnectResolved 0,
       TimerTick 0, SendResolved 0,
       PostPlay (Some (JStr ''b.wav'')), DecodeSettled 1, ConnectRejected 1]) = []"
proof -
  define W where "W = run (init studio_disk)
      [PostPlay (Some (JStr ''a.wav'')), DecodeSettled 0, ConnectResolved 0,
       TimerTick 0, SendResolved 0]"
  have live: "playTimer W = Some 0" "active_timers W = [0]" "zmqSock W = Some 0"
      "0 < length (sockets W)"
    and bad: "disk W ''bad.wav'' = Some Corrupt" and b: "disk W ''b.wav'' = Some (Wav [1])"
    and pl: "length (plays W) = 1"
    and st: "STATE W = \<lparr> playing = True, currentFile = Some ''a.wav'', bytesSent = 4096 \<rparr>"
    unfolding W_def by (simp_all add: eval_defs)
  have "disk W ''bad.wav'' = Some Corrupt \<and>
          run W [PostPlay (Some (JStr ''bad.wav'')), DecodeSettled 1] =
          run W [PostPlay (Some (JStr ''bad.wav'')), DecodeSettled (length (plays W))]"
    unfolding pl using bad by blast
  then have f1:
       "disk W ''bad.wav'' = Some Corrupt \<and>
          run W [PostPlay (Some (JStr ''bad.wav'')), DecodeSettled 1] =
          run W [PostPlay (Some (JStr ''bad.wav'')), DecodeSettled (length (plays W))] \<or>
        disk W ''bad.wav'' = Some (Wav []) \<and>
          run W [PostPlay (Some (JStr ''bad.wav'')), DecodeSettled 1] =
          run W [PostPlay (Some (JStr ''bad.wav'')), DecodeSettled (length (plays W)),
                 ConnectRejected (length (plays W))] \<or>
        disk W ''bad.wav'' = Some Unreadable \<and>
          run W [PostPlay (Some (JStr ''bad.wav'')), DecodeSettled 1] =
          run W [PostPlay (Some (JStr ''bad.wav''))]"
    by (rule disjI1)
  have ne1: "''bad.wav'' \<noteq> []"
    by simp
  have 1: "STATE (run W [PostPlay (Some (JStr ''bad.wav'')), DecodeSettled 1]) =
             (STATE W)\<lparr> bytesSent := 0 \<rparr> \<and>
           active_timers (run W [PostPlay (Some (JStr ''bad.wav'')), DecodeSettled 1]) = []"
    using failed_start_tears_down [OF live ne1 f1] by blast
  have "disk W ''b.wav'' = Some (Wav [1]) \<and>
          run W [PostPlay (Some (JStr ''b.wav'')), DecodeSettled 1, ConnectRejected 1] =
          run W [PostPlay (Some (JStr ''b.wav'')), DecodeSettled (length (plays W)),
                 ConnectRejected (length (plays W))]"
    unfolding pl using b by blast
  then have f2:
       "disk W ''b.wav'' = Some Corrupt \<and>
          run W [PostPlay (Some (JStr ''b.wav'')), DecodeSettled 1, ConnectRejected 1] =
          run W [PostPlay (Some (JStr ''b.wav'')), DecodeSettled (length (plays W))] \<or>
        disk W ''b.wav'' = Some (Wav [1]) \<and>
          run W [PostPlay (Some (JStr ''b.wav'')), DecodeSettled 1, ConnectRejected 1] =
          run W [PostPlay (Some (JStr ''b.wav'')), DecodeSettled (length (plays W)),
                 ConnectRejected (length (plays W))] \<or>
        disk W ''b.wav'' = Some Unreadable \<and>
          run W [PostPlay (Some (JStr ''b.wav'')), DecodeSettled 1, ConnectRejected 1] =
          run W [PostPlay (Some (JStr ''b.wav''))]"
    by blast
  have ne2: "''b.wav'' \<noteq> []"
    by simp
  have 2: "STATE (run W [PostPlay (Some (JStr ''b.wav'')), DecodeSettled 1, ConnectRejected 1]) =
             (STATE W)\<lparr> bytesSent := 0 \<rparr> \<and>
           active_timers (run W [PostPlay (Some (JStr ''b.wav'')), DecodeSettled 1,
             ConnectRejected 1]) = []"
    using failed_start_tears_down [OF live ne2 f2] by blast
  have r1: "run (init studio_disk)
      [PostPlay (Some (JStr ''a.wav'')), DecodeSettled 0, ConnectResolved 0,
       TimerTick 0, SendResolved 0,
       PostPlay (Some (JStr ''bad.wav'')), DecodeSettled 1] =
      run W [PostPlay (Some (JStr ''bad.wav'')), DecodeSettled 1]"
    and r2: "run (init studio_disk)
      [PostPlay (Some (JStr ''a.wav'')), DecodeSettled 0, ConnectResolved 0,
       TimerTick 0, SendResolved 0,
       PostPlay (Some (JStr ''b.wav'')), DecodeSettled 1, ConnectRejected 1] =
      run W [PostPlay (Some (JStr ''b.wav'')), DecodeSettled 1, ConnectRejected 1]"
    unfolding W_def run_def by simp_all
  show ?thesis
    unfolding r1 r2 using 1 2 live(2) st unfolding W_def [symmetric] by simp
qed



subsection \<open>Superseded intervals and sends in flight\<close>





end
